theory Spec2Isabelle
  imports Main
begin

section \<open>Roman numeral converter: data model\<close>

text \<open>
  A Python \<open>str\<close> is a sequence of Unicode code points, so a character is modelled by
  its code point and a string by the list of its code points. ASCII literals are
  written through \<open>lit\<close>; the arrow of the text format (U+2192) is code point 8594.
\<close>

type_synonym pychar = nat
type_synonym pystr = "pychar list"

definition lit :: "string \<Rightarrow> pystr" where
  "lit s = map of_char s"

text \<open>
  The exceptions the program can raise: \<open>KeyError\<close> with the missing key (a
  character is a string of length one), \<open>ValueError\<close> with its message,
  \<open>TypeError\<close>, and the \<open>csv.Error\<close> of the csv reader with its message.
\<close>

datatype error = KeyError pystr | ValueError pystr | TypeError | CsvError pystr

section \<open>RomanToDecimalConverter\<close>

text \<open>
  \<^verbatim>\<open>_roman_values = {'I': 1, 'V': 5, 'X': 10, 'L': 50, 'C': 100, 'D': 500, 'M': 1000}\<close>
\<close>

definition roman_values :: "pychar \<rightharpoonup> int" where
  "roman_values = map_of
     [(of_char CHR ''I'', 1), (of_char CHR ''V'', 5), (of_char CHR ''X'', 10),
      (of_char CHR ''L'', 50), (of_char CHR ''C'', 100), (of_char CHR ''D'', 500),
      (of_char CHR ''M'', 1000)]"

text \<open>
  The body of \<open>for char in reversed(roman)\<close>, run over the already reversed string
  with the two loop variables \<open>total\<close> and \<open>prev_value\<close>. A character missing from
  the dictionary raises \<open>KeyError\<close> at the lookup.
\<close>

fun r2d_loop :: "pystr \<Rightarrow> int \<Rightarrow> int \<Rightarrow> error + int" where
  "r2d_loop [] total' prev_value = Inr total'"
| "r2d_loop (c # cs) total' prev_value =
     (case roman_values c of
        None \<Rightarrow> Inl (KeyError [c])
      | Some v \<Rightarrow>
          if v < prev_value then r2d_loop cs (total' - v) v
          else r2d_loop cs (total' + v) v)"

definition romanToDecimal :: "pystr \<Rightarrow> error + int" where
  "romanToDecimal roman = r2d_loop (rev roman) 0 0"

section \<open>DecimalToRomanConverter\<close>

definition value_map :: "(int \<times> pystr) list" where
  "value_map =
     [(1000, lit ''M''), (900, lit ''CM''), (500, lit ''D''), (400, lit ''CD''),
      (100, lit ''C''), (90, lit ''XC''), (50, lit ''L''), (40, lit ''XL''),
      (10, lit ''X''), (9, lit ''IX''), (5, lit ''V''), (4, lit ''IV''), (1, lit ''I'')]"

text \<open>
  The inner loop \<open>while num >= value: result.append(numeral); num -= value\<close>. Nothing in
  the loop itself bounds the number of iterations (it would not stop for a value
  \<open>\<le> 0\<close>), so it is a partial function: \<open>None\<close> stands for a loop that never ends.
\<close>

partial_function (option) d2r_while ::
  "int \<Rightarrow> int \<Rightarrow> pystr \<Rightarrow> pystr list \<Rightarrow> (int \<times> pystr list) option" where
  "d2r_while num v numeral' result =
     (if num \<ge> v then d2r_while (num - v) v numeral' (result @ [numeral'])
      else Some (num, result))"

text \<open>The outer loop \<open>for value, numeral in self._value_map\<close>.\<close>

fun d2r_for :: "(int \<times> pystr) list \<Rightarrow> int \<Rightarrow> pystr list \<Rightarrow> (int \<times> pystr list) option" where
  "d2r_for [] num result = Some (num, result)"
| "d2r_for ((v, numeral') # rest) num result =
     (case d2r_while num v numeral' result of
        None \<Rightarrow> None
      | Some (num', result') \<Rightarrow> d2r_for rest num' result')"

text \<open>
  \<open>DecimalToRomanConverter.convert\<close>: the range check raises \<open>ValueError\<close>; otherwise
  the loops run and the pieces are joined. \<open>None\<close> is non-termination of the loops.
\<close>

definition decimalToRoman :: "int \<Rightarrow> (error + pystr) option" where
  "decimalToRoman num =
     (if \<not> (0 < num \<and> num < 4000)
      then Some (Inl (ValueError (lit ''Number must be between 1 and 3999'')))
      else case d2r_for value_map num [] of
             None \<Rightarrow> None
           | Some (num', result) \<Rightarrow> Some (Inr (concat result)))"

section \<open>The codec as the specification words it\<close>

text \<open>
  The seven recognised symbols, and the value of a symbol (0 for anything else, which
  the proofs never use).
\<close>

definition roman_symbols :: "pychar set" where
  "roman_symbols = set (lit ''IVXLCDM'')"

definition symbol_value :: "pychar \<Rightarrow> int" where
  "symbol_value c = (case roman_values c of None \<Rightarrow> 0 | Some v \<Rightarrow> v)"

text \<open>
  The right-to-left rule in the specification's words: keep a running total and the
  value of the previously seen (rightward) symbol; subtract a symbol's value when it
  is strictly smaller than the previous one, add it otherwise. This definition is
  written from the specification, not from the code, and is compared with
  \<open>romanToDecimal\<close> below.
\<close>

fun spec_step :: "pychar \<Rightarrow> int \<times> int \<Rightarrow> int \<times> int" where
  "spec_step c (running, previous) =
     (if symbol_value c < previous then (running - symbol_value c, symbol_value c)
      else (running + symbol_value c, symbol_value c))"

definition spec_value :: "pystr \<Rightarrow> int" where
  "spec_value text = fst (foldr spec_step text (0, 0))"

section \<open>Auxiliary definitions for the round-trip proofs\<close>

text \<open>
  The numerals the greedy loop emits for one decimal digit \<open>d\<close>, given the symbols for
  one, four, five and nine units of that decimal place.
\<close>

definition digit_numerals :: "pystr \<Rightarrow> pystr \<Rightarrow> pystr \<Rightarrow> pystr \<Rightarrow> int \<Rightarrow> pystr list" where
  "digit_numerals one four five nine d =
     (if d = 9 then [nine]
      else if 5 \<le> d then five # replicate (nat (d - 5)) one
      else if d = 4 then [four]
      else replicate (nat d) one)"

text \<open>The list of numerals the loops produce for \<open>n\<close>, decimal place by decimal place.\<close>

definition canonical :: "int \<Rightarrow> pystr list" where
  "canonical n =
     replicate (nat (n div 1000)) (lit ''M'') @
     digit_numerals (lit ''C'') (lit ''CD'') (lit ''D'') (lit ''CM'') (n mod 1000 div 100) @
     digit_numerals (lit ''X'') (lit ''XL'') (lit ''L'') (lit ''XC'') (n mod 100 div 10) @
     digit_numerals (lit ''I'') (lit ''IV'') (lit ''V'') (lit ''IX'') (n mod 10)"

text \<open>A string of recognised symbols whose values all lie between two bounds.\<close>

definition within :: "int \<Rightarrow> int \<Rightarrow> pystr \<Rightarrow> bool" where
  "within lo hi s \<longleftrightarrow>
     set s \<subseteq> roman_symbols \<and> (\<forall>c \<in> set s. lo \<le> symbol_value c \<and> symbol_value c \<le> hi)"

section \<open>Python values and objects\<close>

text \<open>
  The values the program stores in a record: \<open>None\<close>, integers and strings. They are
  dynamically typed: \<open>1994\<close> and \<open>'1994'\<close> are different values.
\<close>

datatype pyval = PyNone | PyInt int | PyStr pystr

text \<open>\<open>str(n)\<close> for an integer: the decimal digits, with a minus sign when negative.\<close>

fun digits_of :: "nat \<Rightarrow> pystr" where
  "digits_of n = (if n < 10 then [48 + n] else digits_of (n div 10) @ [48 + n mod 10])"

definition str_int :: "int \<Rightarrow> pystr" where
  "str_int i = (if i < 0 then of_char CHR ''-'' # digits_of (nat (- i)) else digits_of (nat i))"

text \<open>
  \<open>str(v)\<close>, which is also what an f-string field \<open>{v}\<close> formats to. CPython
  refuses to convert an integer of more than 4300 digits (a limit that can be
  configured); \<open>str_ok\<close> holds for the values it converts, and the theorems about
  files are stated for those.
\<close>

fun py_str :: "pyval \<Rightarrow> pystr" where
  "py_str PyNone = lit ''None''"
| "py_str (PyInt i) = str_int i"
| "py_str (PyStr s) = s"



text \<open>
  A history record is the dictionary \<open>{'input': ..., 'output': ..., 'type': ...}\<close>
  built by \<open>add_record\<close>; the program never uses another key.
\<close>

record conversion_record =
  rec_input :: pyval
  rec_output :: pyval
  rec_type :: pyval

text \<open>
  Lists and dictionaries are mutable objects that the program shares by reference, so
  they live in a store: a reference is the index of the object in its arena. A list
  object holds references to record dictionaries. Allocation appends to the arena.
\<close>

type_synonym ref = nat

record heap =
  lists :: "ref list list"
  dicts :: "conversion_record list"

text \<open>The records a list object refers to, read through the store.\<close>

definition read_list :: "ref \<Rightarrow> heap \<Rightarrow> conversion_record list" where
  "read_list l h = map (\<lambda>d. dicts h ! d) (lists h ! l)"

text \<open>
  What a caller can do to an object it holds a reference to: any in-place mutation of
  a list (append, delete, item assignment, sort, clear) leaves some list of references
  in the object; an item assignment on a record dictionary replaces one of its values.
\<close>

definition list_store :: "ref \<Rightarrow> ref list \<Rightarrow> heap \<Rightarrow> heap" where
  "list_store l xs h = h\<lparr>lists := (lists h)[l := xs]\<rparr>"

definition dict_store :: "ref \<Rightarrow> conversion_record \<Rightarrow> heap \<Rightarrow> heap" where
  "dict_store d r h = h\<lparr>dicts := (dicts h)[d := r]\<rparr>"

section \<open>ConversionHistory\<close>

text \<open>The object has one attribute, \<open>_history\<close>, a reference to a list object.\<close>

record ConversionHistory =
  history_list :: ref

text \<open>\<open>__init__\<close>: \<open>self._history = []\<close> allocates a new empty list.\<close>

definition ConversionHistory_init :: "heap \<Rightarrow> ConversionHistory \<times> heap" where
  "ConversionHistory_init h =
     (\<lparr>history_list = length (lists h)\<rparr>, h\<lparr>lists := lists h @ [[]]\<rparr>)"

text \<open>
  \<open>add_record\<close>: the dictionary display allocates a new record, and \<open>append\<close> adds
  the reference to it at the end of the list object.
\<close>

definition add_record :: "ConversionHistory \<Rightarrow> pyval \<Rightarrow> pyval \<Rightarrow> pyval \<Rightarrow> heap \<Rightarrow> heap" where
  "add_record self from_val to_val direction h =
     (let d = length (dicts h);
          h1 = h\<lparr>dicts := dicts h @
                 [\<lparr>rec_input = from_val, rec_output = to_val, rec_type = direction\<rparr>]\<rparr>
      in h1\<lparr>lists := (lists h1)[history_list self := lists h1 ! history_list self @ [d]]\<rparr>)"

text \<open>
  \<open>get_history\<close>: \<open>self._history.copy()\<close> allocates a new list object holding the
  same references (a shallow copy) and returns the reference to it.
\<close>

definition get_history :: "ConversionHistory \<Rightarrow> heap \<Rightarrow> ref \<times> heap" where
  "get_history self h =
     (length (lists h), h\<lparr>lists := lists h @ [lists h ! history_list self]\<rparr>)"

text \<open>
  The references held by a ledger are always those of live objects; this is the
  invariant of the store that every operation keeps.
\<close>

definition valid_ledger :: "ConversionHistory \<Rightarrow> heap \<Rightarrow> bool" where
  "valid_ledger self h \<longleftrightarrow>
     history_list self < length (lists h) \<and>
     (\<forall>d \<in> set (lists h ! history_list self). d < length (dicts h))"

section \<open>ConverterFactory and ConversionSystem\<close>

datatype NumeralConverter = RomanToDecimalConverter | DecimalToRomanConverter

text \<open>
  The method \<open>convert\<close> of the two converters on a dynamically typed argument:
  \<open>reversed\<close> of a non-sequence and \<open>0 < num\<close> on a non-number raise \<open>TypeError\<close>.
\<close>

fun NumeralConverter_convert :: "NumeralConverter \<Rightarrow> pyval \<Rightarrow> (error + pyval) option" where
  "NumeralConverter_convert RomanToDecimalConverter (PyStr roman) =
     (case romanToDecimal roman of Inl e \<Rightarrow> Some (Inl e) | Inr n \<Rightarrow> Some (Inr (PyInt n)))"
| "NumeralConverter_convert RomanToDecimalConverter _ = Some (Inl TypeError)"
| "NumeralConverter_convert DecimalToRomanConverter (PyInt num) =
     (case decimalToRoman num of
        None \<Rightarrow> None
      | Some (Inl e) \<Rightarrow> Some (Inl e)
      | Some (Inr s) \<Rightarrow> Some (Inr (PyStr s)))"
| "NumeralConverter_convert DecimalToRomanConverter _ = Some (Inl TypeError)"

text \<open>
  \<^verbatim>\<open>converters = {'roman': RomanToDecimalConverter(), 'decimal': DecimalToRomanConverter()}\<close>
  and \<open>get_converter\<close>, which is \<open>dict.get\<close>: \<open>None\<close> for a missing key.
\<close>

definition converters :: "pyval \<rightharpoonup> NumeralConverter" where
  "converters = map_of
     [(PyStr (lit ''roman''), RomanToDecimalConverter),
      (PyStr (lit ''decimal''), DecimalToRomanConverter)]"

definition get_converter :: "pyval \<Rightarrow> NumeralConverter option" where
  "get_converter converter_type = converters converter_type"

text \<open>The system owns one history; the factory is the shared constant above.\<close>

record ConversionSystem =
  history :: ConversionHistory

definition ConversionSystem_init :: "heap \<Rightarrow> ConversionSystem \<times> heap" where
  "ConversionSystem_init h =
     (case ConversionHistory_init h of (hist, h') \<Rightarrow> (\<lparr>history = hist\<rparr>, h'))"

text \<open>
  \<open>ConversionSystem.convert\<close>. An exception of the converter propagates before
  anything is recorded. \<open>None\<close> is a converter that does not return.
\<close>

definition convert ::
  "ConversionSystem \<Rightarrow> pyval \<Rightarrow> pyval \<Rightarrow> heap \<Rightarrow> ((error + pyval) \<times> heap) option" where
  "convert self val conversion_type h =
     (case get_converter conversion_type of
        None \<Rightarrow>
          Some (Inl (ValueError (lit ''Invalid conversion type: '' @ py_str conversion_type)), h)
      | Some converter \<Rightarrow>
          (case NumeralConverter_convert converter val of
             None \<Rightarrow> None
           | Some (Inl e) \<Rightarrow> Some (Inl e, h)
           | Some (Inr result) \<Rightarrow>
               Some (Inr result,
                 if conversion_type = PyStr (lit ''roman'')
                 then add_record (history self) val result (PyStr (lit ''roman'')) h
                 else add_record (history self) val result (PyStr (lit ''decimal'')) h)))"

section \<open>Scenarios on the store\<close>

text \<open>The heap before anything is allocated, and a ledger constructed on it.\<close>

definition empty_heap :: heap where
  "empty_heap = \<lparr>lists = [], dicts = []\<rparr>"

definition fresh_ledger :: ConversionHistory where
  "fresh_ledger = fst (ConversionHistory_init empty_heap)"

definition fresh_heap :: heap where
  "fresh_heap = snd (ConversionHistory_init empty_heap)"

text \<open>Appending several records in turn, each given by its three values.\<close>

definition record_of :: "pyval \<times> pyval \<times> pyval \<Rightarrow> conversion_record" where
  "record_of t = (case t of (a, b, c) \<Rightarrow> \<lparr>rec_input = a, rec_output = b, rec_type = c\<rparr>)"

definition add_records ::
  "ConversionHistory \<Rightarrow> (pyval \<times> pyval \<times> pyval) list \<Rightarrow> heap \<Rightarrow> heap" where
  "add_records self rs h = fold (\<lambda>(a, b, c). add_record self a b c) rs h"

text \<open>
  The caller's statement \<open>snapshot[i]['input'] = v\<close> on a list \<open>l\<close> it got from
  \<open>get_history\<close>.
\<close>

definition setitem_input :: "ref \<Rightarrow> nat \<Rightarrow> pyval \<Rightarrow> heap \<Rightarrow> heap" where
  "setitem_input l i v h =
     (let d = lists h ! l ! i in dict_store d ((dicts h ! d)\<lparr>rec_input := v\<rparr>) h)"

text \<open>A system constructed on the empty heap.\<close>

definition fresh_system :: ConversionSystem where
  "fresh_system = fst (ConversionSystem_init empty_heap)"

definition system_heap :: heap where
  "system_heap = snd (ConversionSystem_init empty_heap)"

section \<open>Python string built-ins and text files\<close>











section \<open>The human-readable format\<close>









section \<open>Round trips through a file\<close>








section \<open>The csv module\<close>




















section \<open>The tabular format\<close>







section \<open>Auxiliary definitions for the tabular round trip\<close>











section \<open>The Roman-to-decimal direction\<close>

lemma roman_values_dom: "dom roman_values = roman_symbols"
  by (auto simp: roman_values_def roman_symbols_def lit_def dom_def)

lemma roman_values_None: "c \<notin> roman_symbols \<Longrightarrow> roman_values c = None"
  using roman_values_dom by blast

lemma roman_values_in:
  assumes "c \<in> roman_symbols"
  shows "roman_values c = Some (symbol_value c)"
proof -
  from assms have "c \<in> dom roman_values"
    by (simp add: roman_values_dom)
  then obtain v where "roman_values c = Some v" by blast
  then show ?thesis by (simp add: symbol_value_def)
qed

text \<open>On a string of recognised symbols the loop is a left fold of the step.\<close>

lemma r2d_loop_valid:
  "set cs \<subseteq> roman_symbols \<Longrightarrow>
   r2d_loop cs t p = Inr (fst (foldl (\<lambda>st c. spec_step c st) (t, p) cs))"
proof (induction cs arbitrary: t p)
  case Nil
  show ?case by simp
next
  case (Cons c cs)
  then have c: "roman_values c = Some (symbol_value c)" and cs: "set cs \<subseteq> roman_symbols"
    by (simp_all add: roman_values_in)
  show ?case by (simp add: c Cons.IH [OF cs])
qed

text \<open>One unrecognised character anywhere makes the loop raise, with that character.\<close>

lemma r2d_loop_invalid:
  "\<not> set cs \<subseteq> roman_symbols \<Longrightarrow>
   \<exists>c \<in> set cs. c \<notin> roman_symbols \<and> r2d_loop cs t p = Inl (KeyError [c])"
proof (induction cs arbitrary: t p)
  case Nil
  then show ?case by simp
next
  case (Cons c cs)
  show ?case
  proof (cases "c \<in> roman_symbols")
    case False
    then show ?thesis by (simp add: roman_values_None)
  next
    case True
    with Cons.prems have "\<not> set cs \<subseteq> roman_symbols" by simp
    from Cons.IH [OF this] show ?thesis by (auto simp: roman_values_in [OF True])
  qed
qed

lemma romanToDecimal_valid:
  "set text \<subseteq> roman_symbols \<Longrightarrow> romanToDecimal text = Inr (spec_value text)"
  by (simp add: romanToDecimal_def spec_value_def r2d_loop_valid foldl_conv_foldr)

lemma romanToDecimal_invalid:
  assumes "\<not> set text \<subseteq> roman_symbols"
  shows "\<exists>c \<in> set text. c \<notin> roman_symbols \<and> romanToDecimal text = Inl (KeyError [c])"
proof -
  from assms have "\<not> set (rev text) \<subseteq> roman_symbols" by simp
  from r2d_loop_invalid [OF this, of 0 0] show ?thesis by (simp add: romanToDecimal_def)
qed

text \<open>
  Claim C6. \<open>romanToDecimal\<close> fails with the invalid-symbol error (Python's
  \<open>KeyError\<close>) exactly when the text contains a character outside
  \<open>{I,V,X,L,C,D,M}\<close>, and the key of the error is such a character; on every string
  over those seven symbols it returns an integer.
\<close>

theorem romanToDecimal_fails_iff_invalid_symbol:
  "((\<exists>c. romanToDecimal text = Inl (KeyError [c])) \<longleftrightarrow> (\<exists>c \<in> set text. c \<notin> roman_symbols)) \<and>
   (\<forall>e. romanToDecimal text = Inl e \<longrightarrow> (\<exists>c \<in> set text. c \<notin> roman_symbols \<and> e = KeyError [c])) \<and>
   (set text \<subseteq> roman_symbols \<longrightarrow> (\<exists>n. romanToDecimal text = Inr n))"
proof (cases "set text \<subseteq> roman_symbols")
  case True
  then have "romanToDecimal text = Inr (spec_value text)" by (rule romanToDecimal_valid)
  with True show ?thesis by auto
next
  case False
  from romanToDecimal_invalid [OF this] False show ?thesis by auto
qed

theorem romanToDecimal_fails_iff_invalid_symbol_witness:
  "(\<exists>c \<in> set (lit ''XIZ''). c \<notin> roman_symbols) \<and>
   (\<exists>c. romanToDecimal (lit ''XIZ'') = Inl (KeyError [c])) \<and>
   set (lit ''XIV'') \<subseteq> roman_symbols \<and>
   (\<exists>n. romanToDecimal (lit ''XIV'') = Inr n)"
  using romanToDecimal_fails_iff_invalid_symbol [of "lit ''XIZ''"]
    romanToDecimal_fails_iff_invalid_symbol [of "lit ''XIV''"]
  by (simp add: roman_symbols_def lit_def)

text \<open>
  Claim C7. On any string over the seven symbols \<open>romanToDecimal\<close> returns the
  right-to-left additive/subtractive value \<open>spec_value\<close>, with no check of canonical
  form: \<open>IIII\<close> is accepted and gives 4, and \<open>MCMXCIV\<close> gives 1994.
\<close>

theorem romanToDecimal_is_right_to_left_value:
  "(set text \<subseteq> roman_symbols \<longrightarrow> romanToDecimal text = Inr (spec_value text)) \<and>
   romanToDecimal (lit ''IIII'') = Inr 4 \<and>
   romanToDecimal (lit ''MCMXCIV'') = Inr 1994"
proof -
  have "romanToDecimal (lit ''IIII'') = Inr 4"
    by (simp add: romanToDecimal_def lit_def roman_values_def)
  moreover have "romanToDecimal (lit ''MCMXCIV'') = Inr 1994"
    by (simp add: romanToDecimal_def lit_def roman_values_def)
  ultimately show ?thesis by (simp add: romanToDecimal_valid)
qed

theorem romanToDecimal_is_right_to_left_value_witness:
  "set (lit ''XLII'') \<subseteq> roman_symbols \<and>
   romanToDecimal (lit ''XLII'') = Inr (spec_value (lit ''XLII'')) \<and>
   spec_value (lit ''XLII'') = 42"
proof -
  have h: "set (lit ''XLII'') \<subseteq> roman_symbols"
    by (simp add: roman_symbols_def lit_def)
  have v: "spec_value (lit ''XLII'') = 42"
    by (simp add: spec_value_def symbol_value_def roman_values_def lit_def)
  from romanToDecimal_is_right_to_left_value [of "lit ''XLII''"] h v show ?thesis by simp
qed

text \<open>
  Claim C10. On the empty string \<open>romanToDecimal\<close> does not fail: it returns 0,
  a value outside the range 1 to 3999 of the other direction.
\<close>

theorem romanToDecimal_empty: "romanToDecimal (lit []) = Inr 0"
  by (simp add: romanToDecimal_def lit_def)

section \<open>The decimal-to-Roman direction\<close>

lemma d2r_while_stop: "num < v \<Longrightarrow> d2r_while num v s res = Some (num, res)"
  by (subst d2r_while.simps) simp

lemma d2r_while_go:
  "v \<le> num \<Longrightarrow> d2r_while num v s res = d2r_while (num - v) v s (res @ [s])"
  by (subst d2r_while.simps) simp

lemma d2r_for_append:
  "d2r_for (a @ b) num res =
     (case d2r_for a num res of None \<Rightarrow> None | Some (num', res') \<Rightarrow> d2r_for b num' res')"
  by (induction a num res rule: d2r_for.induct) (auto split: option.splits)

lemma digit_cases:
  assumes "0 \<le> q" "q \<le> (9::int)"
  obtains "q = 0" | "q = 1" | "q = 2" | "q = 3" | "q = 4" | "q = 5" | "q = 6" | "q = 7" | "q = 8" | "q = 9"
proof -
  from assms have "q = 0 \<or> q = 1 \<or> q = 2 \<or> q = 3 \<or> q = 4 \<or> q = 5 \<or> q = 6 \<or> q = 7 \<or> q = 8 \<or> q = 9"
    by arith
  then show thesis using that by blast
qed

lemma d2r_for_digit:
  assumes u: "0 < u" and r: "0 \<le> r" "r < u" and q: "0 \<le> q" "q \<le> 9"
  shows "d2r_for [(9 * u, nine), (5 * u, five), (4 * u, four), (u, one)] (q * u + r) res =
         Some (r, res @ digit_numerals one four five nine q)"
  using q
proof (cases q rule: digit_cases)
  case 1
  with u r show ?thesis by (simp add: d2r_while_stop digit_numerals_def)
next
  case 2
  with u r show ?thesis by (simp add: d2r_while_stop d2r_while_go digit_numerals_def eval_nat_numeral)
next
  case 3
  with u r show ?thesis by (simp add: d2r_while_stop d2r_while_go digit_numerals_def eval_nat_numeral)
next
  case 4
  with u r show ?thesis by (simp add: d2r_while_stop d2r_while_go digit_numerals_def eval_nat_numeral)
next
  case 5
  with u r show ?thesis by (simp add: d2r_while_stop d2r_while_go digit_numerals_def eval_nat_numeral)
next
  case 6
  with u r show ?thesis by (simp add: d2r_while_stop d2r_while_go digit_numerals_def eval_nat_numeral)
next
  case 7
  with u r show ?thesis by (simp add: d2r_while_stop d2r_while_go digit_numerals_def eval_nat_numeral)
next
  case 8
  with u r show ?thesis by (simp add: d2r_while_stop d2r_while_go digit_numerals_def eval_nat_numeral)
next
  case 9
  with u r show ?thesis by (simp add: d2r_while_stop d2r_while_go digit_numerals_def eval_nat_numeral)
next
  case 10
  with u r show ?thesis by (simp add: d2r_while_stop d2r_while_go digit_numerals_def eval_nat_numeral)
qed

lemma d2r_for_thousands:
  assumes r: "0 \<le> r" "r < 1000" and q: "0 \<le> q" "q \<le> 3"
  shows "d2r_for [(1000, m)] (q * 1000 + r) res = Some (r, res @ replicate (nat q) m)"
proof -
  from q have "q = 0 \<or> q = 1 \<or> q = 2 \<or> q = 3" by arith
  with r show ?thesis
    by (auto simp: d2r_while_stop d2r_while_go eval_nat_numeral)
qed

lemma value_map_blocks:
  "value_map =
     [(1000, lit ''M'')] @
     [(9 * 100, lit ''CM''), (5 * 100, lit ''D''), (4 * 100, lit ''CD''), (100, lit ''C'')] @
     [(9 * 10, lit ''XC''), (5 * 10, lit ''L''), (4 * 10, lit ''XL''), (10, lit ''X'')] @
     [(9 * 1, lit ''IX''), (5 * 1, lit ''V''), (4 * 1, lit ''IV''), (1, lit ''I'')]"
  by (simp add: value_map_def)

lemma d2r_for_value_map:
  assumes "0 \<le> n" "n < 4000"
  shows "d2r_for value_map n [] = Some (0, canonical n)"
proof -
  define a where "a = n div 1000"
  define b where "b = n mod 1000 div 100"
  define c where "c = n mod 100 div 10"
  define d where "d = n mod 10"
  have a: "0 \<le> a" "a \<le> 3" using assms by (simp_all add: a_def)
  have b: "0 \<le> b" "b \<le> 9" by (simp_all add: b_def)
  have c: "0 \<le> c" "c \<le> 9" by (simp_all add: c_def)
  have d: "0 \<le> d" "d \<le> 9" by (simp_all add: d_def)
  have n1: "n = a * 1000 + n mod 1000" by (simp add: a_def)
  have n2: "n mod 1000 = b * 100 + n mod 100"
  proof -
    have "n mod 1000 mod 100 = n mod 100" by (simp add: mod_mod_cancel)
    then show ?thesis unfolding b_def by (metis div_mult_mod_eq)
  qed
  have n3: "n mod 100 = c * 10 + d"
  proof -
    have "n mod 100 mod 10 = n mod 10" by (simp add: mod_mod_cancel)
    then show ?thesis unfolding c_def d_def by (metis div_mult_mod_eq)
  qed
  have s1: "d2r_for [(1000, lit ''M'')] n [] = Some (n mod 1000, replicate (nat a) (lit ''M''))"
    using d2r_for_thousands [of "n mod 1000" a "lit ''M''" "[]"] a n1 by simp
  have s2: "d2r_for [(9 * 100, lit ''CM''), (5 * 100, lit ''D''), (4 * 100, lit ''CD''), (100, lit ''C'')]
              (n mod 1000) res =
            Some (n mod 100, res @ digit_numerals (lit ''C'') (lit ''CD'') (lit ''D'') (lit ''CM'') b)" for res
    using d2r_for_digit [of 100 "n mod 100" b] b n2 by simp
  have s3: "d2r_for [(9 * 10, lit ''XC''), (5 * 10, lit ''L''), (4 * 10, lit ''XL''), (10, lit ''X'')]
              (n mod 100) res =
            Some (d, res @ digit_numerals (lit ''X'') (lit ''XL'') (lit ''L'') (lit ''XC'') c)" for res
    using d2r_for_digit [of 10 d c] c d n3 by (simp add: d_def)
  have s4: "d2r_for [(9 * 1, lit ''IX''), (5 * 1, lit ''V''), (4 * 1, lit ''IV''), (1, lit ''I'')]
              d res =
            Some (0, res @ digit_numerals (lit ''I'') (lit ''IV'') (lit ''V'') (lit ''IX'') d)" for res
    using d2r_for_digit [of 1 0 d] d by simp
  show ?thesis
    unfolding canonical_def a_def [symmetric] b_def [symmetric] c_def [symmetric] d_def [symmetric]
    by (simp only: value_map_blocks d2r_for_append s1 s2 s3 s4 option.case prod.case append_Nil append_assoc)
qed

section \<open>Round trip\<close>

lemma symbol_value_nonneg: "0 \<le> symbol_value c"
  by (simp add: symbol_value_def roman_values_def)

lemma snd_spec_step: "snd (spec_step c st) = symbol_value c"
  by (cases st) simp

lemma foldr_spec_step_shift:
  "foldr spec_step a (t, p) = (t + fst (foldr spec_step a (0, p)), snd (foldr spec_step a (0, p)))"
proof (induction a)
  case Nil
  show ?case by simp
next
  case (Cons c a)
  obtain x y where xy: "foldr spec_step a (0, p) = (x, y)"
    by (cases "foldr spec_step a (0, p)")
  with Cons.IH have "foldr spec_step a (t, p) = (t + x, y)" by simp
  then show ?case by (simp add: xy)
qed

lemma snd_foldr_spec_step:
  "snd (foldr spec_step a (t, p)) = (case a of [] \<Rightarrow> p | c # _ \<Rightarrow> symbol_value c)"
  by (cases a) (simp_all add: snd_spec_step)

lemma foldr_spec_step_prev:
  assumes "\<forall>c \<in> set a. p \<le> symbol_value c" "0 \<le> p"
  shows "fst (foldr spec_step a (0, p)) = fst (foldr spec_step a (0, 0))"
  using assms(1)
proof (induction a)
  case Nil
  show ?case by simp
next
  case (Cons c a)
  show ?case
  proof (cases a)
    case Nil
    with Cons.prems assms(2) show ?thesis using symbol_value_nonneg [of c] by simp
  next
    case (Cons c' a')
    have s: "snd (foldr spec_step a (0, p)) = snd (foldr spec_step a (0, 0))"
      by (simp add: Cons snd_spec_step)
    have f: "fst (foldr spec_step a (0, p)) = fst (foldr spec_step a (0, 0))"
      using Cons.IH Cons.prems by simp
    show ?thesis
      using s f by (cases "foldr spec_step a (0, p)"; cases "foldr spec_step a (0, 0)") simp
  qed
qed

lemma spec_value_append:
  assumes a: "\<forall>c \<in> set a. L \<le> symbol_value c"
    and b: "\<forall>c \<in> set b. symbol_value c \<le> L" and L: "0 \<le> L"
  shows "spec_value (a @ b) = spec_value a + spec_value b"
proof -
  obtain t p where tp: "foldr spec_step b (0, 0) = (t, p)" by (cases "foldr spec_step b (0, 0)")
  have "p = (case b of [] \<Rightarrow> 0 | c # _ \<Rightarrow> symbol_value c)"
    using snd_foldr_spec_step [of b 0 0] tp by simp
  then have p: "0 \<le> p" "p \<le> L"
    using b L symbol_value_nonneg by (auto split: list.splits)
  have "spec_value (a @ b) = fst (foldr spec_step a (t, p))"
    by (simp add: spec_value_def tp)
  also have "\<dots> = t + fst (foldr spec_step a (0, p))"
    by (subst foldr_spec_step_shift) simp
  also have "fst (foldr spec_step a (0, p)) = fst (foldr spec_step a (0, 0))"
    using a p by (intro foldr_spec_step_prev) auto
  finally show ?thesis by (simp add: spec_value_def tp)
qed

lemma replicate_small:
  "replicate 2 x = [x, x]" "replicate 3 x = [x, x, x]"
  by (simp_all add: numeral_2_eq_2 numeral_3_eq_3)

lemma digit_numerals_eval:
  "digit_numerals one four five nine 0 = []"
  "digit_numerals one four five nine 1 = [one]"
  "digit_numerals one four five nine 2 = [one, one]"
  "digit_numerals one four five nine 3 = [one, one, one]"
  "digit_numerals one four five nine 4 = [four]"
  "digit_numerals one four five nine 5 = [five]"
  "digit_numerals one four five nine 6 = [five, one]"
  "digit_numerals one four five nine 7 = [five, one, one]"
  "digit_numerals one four five nine 8 = [five, one, one, one]"
  "digit_numerals one four five nine 9 = [nine]"
  by (simp_all add: digit_numerals_def replicate_small)

lemmas block_eval =
  spec_value_def symbol_value_def roman_values_def lit_def digit_numerals_eval
  roman_symbols_def within_def replicate_small

lemma thousands_value:
  assumes "0 \<le> a" "a \<le> 3"
  shows "spec_value (concat (replicate (nat a) (lit ''M''))) = 1000 * a \<and>
         within 1000 1000 (concat (replicate (nat a) (lit ''M'')))"
proof -
  from assms have "a = 0 \<or> a = 1 \<or> a = 2 \<or> a = 3" by arith
  then show ?thesis
    by (elim disjE) (simp_all add: block_eval)
qed

lemma hundreds_value:
  assumes "0 \<le> d" "d \<le> 9"
  shows "spec_value (concat (digit_numerals (lit ''C'') (lit ''CD'') (lit ''D'') (lit ''CM'') d)) = 100 * d \<and>
         within 100 1000 (concat (digit_numerals (lit ''C'') (lit ''CD'') (lit ''D'') (lit ''CM'') d))"
  using assms by (cases d rule: digit_cases) (simp_all add: block_eval)

lemma tens_value:
  assumes "0 \<le> d" "d \<le> 9"
  shows "spec_value (concat (digit_numerals (lit ''X'') (lit ''XL'') (lit ''L'') (lit ''XC'') d)) = 10 * d \<and>
         within 10 100 (concat (digit_numerals (lit ''X'') (lit ''XL'') (lit ''L'') (lit ''XC'') d))"
  using assms by (cases d rule: digit_cases) (simp_all add: block_eval)

lemma units_value:
  assumes "0 \<le> d" "d \<le> 9"
  shows "spec_value (concat (digit_numerals (lit ''I'') (lit ''IV'') (lit ''V'') (lit ''IX'') d)) = d \<and>
         within 1 10 (concat (digit_numerals (lit ''I'') (lit ''IV'') (lit ''V'') (lit ''IX'') d))"
  using assms by (cases d rule: digit_cases) (simp_all add: block_eval)

lemma within_append: "within lo hi a \<Longrightarrow> within lo' hi' b \<Longrightarrow> lo' \<le> lo \<Longrightarrow> hi' \<le> hi \<Longrightarrow>
  within lo' hi (a @ b)"
  by (fastforce simp: within_def)

lemma spec_value_within_append:
  assumes "within L hi a" "within lo L b" "0 \<le> L"
  shows "spec_value (a @ b) = spec_value a + spec_value b"
  using assms by (intro spec_value_append [where L = L]) (auto simp: within_def)

lemma canonical_value:
  assumes "0 \<le> n" "n < 4000"
  shows "spec_value (concat (canonical n)) = n \<and> set (concat (canonical n)) \<subseteq> roman_symbols"
proof -
  define A where "A = concat (replicate (nat (n div 1000)) (lit ''M''))"
  define B where "B = concat (digit_numerals (lit ''C'') (lit ''CD'') (lit ''D'') (lit ''CM'') (n mod 1000 div 100))"
  define C where "C = concat (digit_numerals (lit ''X'') (lit ''XL'') (lit ''L'') (lit ''XC'') (n mod 100 div 10))"
  define D where "D = concat (digit_numerals (lit ''I'') (lit ''IV'') (lit ''V'') (lit ''IX'') (n mod 10))"
  have cn: "concat (canonical n) = A @ B @ C @ D"
    by (simp add: canonical_def A_def B_def C_def D_def)
  have A: "spec_value A = 1000 * (n div 1000)" "within 1000 1000 A"
    using thousands_value [of "n div 1000"] assms by (simp_all add: A_def)
  have B: "spec_value B = 100 * (n mod 1000 div 100)" "within 100 1000 B"
    using hundreds_value [of "n mod 1000 div 100"] by (simp_all add: B_def)
  have C: "spec_value C = 10 * (n mod 100 div 10)" "within 10 100 C"
    using tens_value [of "n mod 100 div 10"] by (simp_all add: C_def)
  have D: "spec_value D = n mod 10" "within 1 10 D"
    using units_value [of "n mod 10"] by (simp_all add: D_def)
  have CD: "within 1 100 (C @ D)" using within_append [OF C(2) D(2)] by simp
  have BCD: "within 1 1000 (B @ C @ D)" using within_append [OF B(2) CD] by simp
  have "spec_value (A @ B @ C @ D) = spec_value A + spec_value (B @ C @ D)"
    using spec_value_within_append [OF A(2) BCD] by simp
  also have "spec_value (B @ C @ D) = spec_value B + spec_value (C @ D)"
    using spec_value_within_append [OF B(2) CD] by simp
  also have "spec_value (C @ D) = spec_value C + spec_value D"
    using spec_value_within_append [OF C(2) D(2)] by simp
  finally have "spec_value (concat (canonical n)) =
      1000 * (n div 1000) + (100 * (n mod 1000 div 100) + (10 * (n mod 100 div 10) + n mod 10))"
    by (simp add: cn A B C D)
  also have "\<dots> = n"
  proof -
    have "n mod 1000 mod 100 = n mod 100" "n mod 100 mod 10 = n mod 10"
      by (simp_all add: mod_mod_cancel)
    then have "n mod 1000 = 100 * (n mod 1000 div 100) + n mod 100"
      and "n mod 100 = 10 * (n mod 100 div 10) + n mod 10"
      by (metis mult_div_mod_eq)+
    moreover have "n = 1000 * (n div 1000) + n mod 1000" by simp
    ultimately show ?thesis by linarith
  qed
  finally have v: "spec_value (concat (canonical n)) = n" .
  have "within 1 1000 (A @ B @ C @ D)" using within_append [OF A(2) BCD] by simp
  then have "set (concat (canonical n)) \<subseteq> roman_symbols" by (simp add: cn within_def)
  with v show ?thesis by simp
qed

lemma decimalToRoman_canonical:
  "0 < n \<Longrightarrow> n < 4000 \<Longrightarrow> decimalToRoman n = Some (Inr (concat (canonical n)))"
  by (simp add: decimalToRoman_def d2r_for_value_map)

lemma roundtrip:
  assumes "0 < n" "n < 4000"
  shows "romanToDecimal (concat (canonical n)) = Inr n"
  using canonical_value [of n] assms by (simp add: romanToDecimal_valid)

text \<open>A concrete run of the loops, used to instantiate the theorems below.\<close>

lemma decimalToRoman_1994: "decimalToRoman 1994 = Some (Inr (lit ''MCMXCIV''))"
  by (simp add: decimalToRoman_def value_map_def d2r_while_stop d2r_while_go lit_def)

text \<open>
  Claim C5. \<open>decimalToRoman n\<close> fails with the out-of-range error (Python's
  \<open>ValueError\<close>) exactly when \<open>n \<le> 0\<close> or \<open>n \<ge> 4000\<close>, in particular at 0 and at
  4000; for \<open>1 \<le> n \<le> 3999\<close> the loops terminate and a string is returned.
\<close>

theorem decimalToRoman_out_of_range:
  "(decimalToRoman n = Some (Inl (ValueError (lit ''Number must be between 1 and 3999'')))
      \<longleftrightarrow> n \<le> 0 \<or> 4000 \<le> n) \<and>
   decimalToRoman 0 = Some (Inl (ValueError (lit ''Number must be between 1 and 3999''))) \<and>
   decimalToRoman 4000 = Some (Inl (ValueError (lit ''Number must be between 1 and 3999''))) \<and>
   (1 \<le> n \<and> n \<le> 3999 \<longrightarrow> (\<exists>s. decimalToRoman n = Some (Inr s)))"
proof -
  have out: "decimalToRoman m = Some (Inl (ValueError (lit ''Number must be between 1 and 3999'')))"
    if "m \<le> 0 \<or> 4000 \<le> m" for m
    using that by (auto simp: decimalToRoman_def)
  have inside: "decimalToRoman n = Some (Inr (concat (canonical n)))" if "0 < n" "n < 4000"
    using that by (rule decimalToRoman_canonical)
  show ?thesis
  proof (cases "0 < n \<and> n < 4000")
    case True
    with inside show ?thesis by (simp add: out)
  next
    case False
    then have "n \<le> 0 \<or> 4000 \<le> n" by arith
    with out [of n] show ?thesis by (auto simp: out)
  qed
qed

theorem decimalToRoman_out_of_range_witness:
  "(1::int) \<le> 1994 \<and> (1994::int) \<le> 3999 \<and>
   (\<exists>s. decimalToRoman 1994 = Some (Inr s)) \<and>
   decimalToRoman 1994 \<noteq> Some (Inl (ValueError (lit ''Number must be between 1 and 3999''))) \<and>
   decimalToRoman (- 3) = Some (Inl (ValueError (lit ''Number must be between 1 and 3999'')))"
  using decimalToRoman_out_of_range [of 1994] decimalToRoman_out_of_range [of "- 3"]
  by simp

text \<open>
  Claim C1. For every integer \<open>n\<close> with \<open>1 \<le> n \<le> 3999\<close>, \<open>decimalToRoman n\<close>
  returns a numeral and \<open>romanToDecimal\<close> of that numeral returns \<open>n\<close> again.
\<close>

theorem decimal_roman_decimal_roundtrip:
  assumes "1 \<le> n" "n \<le> 3999"
  shows "\<exists>r. decimalToRoman n = Some (Inr r) \<and> romanToDecimal r = Inr n"
proof -
  from assms have n: "0 < n" "n < 4000" by simp_all
  have "decimalToRoman n = Some (Inr (concat (canonical n)))"
    using n by (rule decimalToRoman_canonical)
  moreover have "romanToDecimal (concat (canonical n)) = Inr n"
    using n by (rule roundtrip)
  ultimately show ?thesis by blast
qed

theorem decimal_roman_decimal_roundtrip_witness:
  "(1::int) \<le> 1994 \<and> (1994::int) \<le> 3999 \<and>
   decimalToRoman 1994 = Some (Inr (lit ''MCMXCIV'')) \<and>
   romanToDecimal (lit ''MCMXCIV'') = Inr 1994"
  using decimal_roman_decimal_roundtrip [of 1994] decimalToRoman_1994 by simp

text \<open>
  Claim C2. For every canonical numeral \<open>r\<close>, that is every \<open>r\<close> returned by
  \<open>decimalToRoman n\<close> for some \<open>n\<close> with \<open>1 \<le> n \<le> 3999\<close>, \<open>romanToDecimal r\<close>
  returns a number on which \<open>decimalToRoman\<close> returns \<open>r\<close> again.
\<close>

theorem roman_decimal_roman_roundtrip:
  assumes "1 \<le> n" "n \<le> 3999" and r: "decimalToRoman n = Some (Inr r)"
  shows "\<exists>m. romanToDecimal r = Inr m \<and> decimalToRoman m = Some (Inr r)"
proof -
  from assms have n: "0 < n" "n < 4000" by simp_all
  from r decimalToRoman_canonical [OF n] have "r = concat (canonical n)" by simp
  with roundtrip [OF n] have "romanToDecimal r = Inr n" by simp
  with r show ?thesis by blast
qed

theorem roman_decimal_roman_roundtrip_witness:
  "(1::int) \<le> 1994 \<and> (1994::int) \<le> 3999 \<and>
   decimalToRoman 1994 = Some (Inr (lit ''MCMXCIV'')) \<and>
   (\<exists>m. romanToDecimal (lit ''MCMXCIV'') = Inr m \<and>
        decimalToRoman m = Some (Inr (lit ''MCMXCIV'')))"
  using roman_decimal_roman_roundtrip [of 1994 "lit ''MCMXCIV''"] decimalToRoman_1994 by simp

section \<open>The history ledger\<close>


lemma add_record_valid:
  "valid_ledger self h \<Longrightarrow> valid_ledger self (add_record self a b c h)"
  by (auto simp: add_record_def valid_ledger_def Let_def less_Suc_eq)

lemma add_record_contents:
  assumes "valid_ledger self h"
  shows "read_list (history_list self) (add_record self a b c h) =
         read_list (history_list self) h @ [\<lparr>rec_input = a, rec_output = b, rec_type = c\<rparr>]"
  using assms by (auto simp: add_record_def valid_ledger_def read_list_def Let_def nth_append)

lemma add_records_contents:
  "valid_ledger self h \<Longrightarrow>
   valid_ledger self (add_records self rs h) \<and>
   read_list (history_list self) (add_records self rs h) =
     read_list (history_list self) h @ map record_of rs"
proof (induction rs arbitrary: h)
  case Nil
  then show ?case by (simp add: add_records_def)
next
  case (Cons r rs)
  obtain a b c where r: "r = (a, b, c)" by (cases r)
  have v: "valid_ledger self (add_record self a b c h)"
    using Cons.prems by (rule add_record_valid)
  have "add_records self (r # rs) h = add_records self rs (add_record self a b c h)"
    by (simp add: add_records_def r)
  with Cons.IH [OF v] add_record_contents [OF Cons.prems, of a b c]
  show ?case by (simp add: r record_of_def)
qed

lemma get_history_snapshot:
  assumes "valid_ledger self h" "get_history self h = (s, h')"
  shows "read_list s h' = read_list (history_list self) h"
    and "s \<noteq> history_list self"
    and "valid_ledger self h'"
    and "read_list (history_list self) h' = read_list (history_list self) h"
    and "s < length (lists h')"
  using assms by (auto simp: get_history_def valid_ledger_def read_list_def nth_append)

lemma list_store_other:
  assumes "valid_ledger self h" "s \<noteq> history_list self"
  shows "valid_ledger self (list_store s xs h)"
    and "read_list (history_list self) (list_store s xs h) = read_list (history_list self) h"
  using assms by (auto simp: list_store_def valid_ledger_def read_list_def)


text \<open>
  Claim C8, as the code has it. For every ledger, appending records and then taking a
  snapshot yields the earlier records followed by the appended ones in insertion
  order (exactly \<open>k\<close> records on a new ledger), and the returned list is a new object:
  whatever the caller then does to that list, the ledger's contents and every later
  snapshot are unchanged.
\<close>

theorem snapshot_is_independent_list:
  assumes "valid_ledger self h"
  shows "case get_history self (add_records self rs h) of (s, h1) \<Rightarrow>
           read_list s h1 = read_list (history_list self) h @ map record_of rs \<and>
           (read_list (history_list self) h = [] \<longrightarrow> length (read_list s h1) = length rs) \<and>
           (\<forall>xs. read_list (history_list self) (list_store s xs h1) = read_list s h1 \<and>
                 (case get_history self (list_store s xs h1) of (s', h2) \<Rightarrow>
                    read_list s' h2 = read_list s h1))"
proof -
  obtain s h1 where g: "get_history self (add_records self rs h) = (s, h1)"
    by (cases "get_history self (add_records self rs h)")
  note r = add_records_contents [OF assms, of rs]
  note snap = get_history_snapshot [OF conjunct1 [OF r] g]
  have c: "read_list s h1 = read_list (history_list self) h @ map record_of rs"
    using snap(1) r by simp
  have m: "read_list (history_list self) (list_store s xs h1) = read_list s h1 \<and>
           (case get_history self (list_store s xs h1) of (s', h2) \<Rightarrow>
              read_list s' h2 = read_list s h1)" for xs
  proof -
    note st = list_store_other [OF snap(3) snap(2), of xs]
    obtain s' h2 where g': "get_history self (list_store s xs h1) = (s', h2)"
      by (cases "get_history self (list_store s xs h1)")
    from get_history_snapshot(1) [OF st(1) g'] st(2) snap(4) snap(1) g'
    show ?thesis by simp
  qed
  from c m show ?thesis by (simp add: g)
qed

lemma fresh_ledger_eval:
  "fresh_ledger = \<lparr>history_list = 0\<rparr>" "fresh_heap = \<lparr>lists = [[]], dicts = []\<rparr>"
  by (simp_all add: fresh_ledger_def fresh_heap_def ConversionHistory_init_def empty_heap_def)

theorem snapshot_is_independent_list_witness:
  "valid_ledger fresh_ledger fresh_heap \<and>
   read_list (fst (get_history fresh_ledger
       (add_records fresh_ledger
          [(PyStr (lit ''IV''), PyInt 4, PyStr (lit ''roman'')),
           (PyInt 9, PyStr (lit ''IX''), PyStr (lit ''decimal''))] fresh_heap)))
     (snd (get_history fresh_ledger
       (add_records fresh_ledger
          [(PyStr (lit ''IV''), PyInt 4, PyStr (lit ''roman'')),
           (PyInt 9, PyStr (lit ''IX''), PyStr (lit ''decimal''))] fresh_heap))) =
   [\<lparr>rec_input = PyStr (lit ''IV''), rec_output = PyInt 4, rec_type = PyStr (lit ''roman'')\<rparr>,
    \<lparr>rec_input = PyInt 9, rec_output = PyStr (lit ''IX''), rec_type = PyStr (lit ''decimal'')\<rparr>]"
proof -
  have v: "valid_ledger fresh_ledger fresh_heap"
    by (simp add: fresh_ledger_eval valid_ledger_def)
  have e: "read_list (history_list fresh_ledger) fresh_heap = []"
    by (simp add: fresh_ledger_eval read_list_def)
  from snapshot_is_independent_list [OF v,
      of "[(PyStr (lit ''IV''), PyInt 4, PyStr (lit ''roman'')),
           (PyInt 9, PyStr (lit ''IX''), PyStr (lit ''decimal''))]"] v e
  show ?thesis by (simp add: split_beta record_of_def)
qed

text \<open>
  The part of claim C8 that the code does not have: the copy is shallow, so the
  records in the snapshot are the ledger's own dictionaries. After one appended
  record and a snapshot, the caller's \<open>snapshot[0]['input'] = 'X'\<close> changes the
  ledger's contents.
\<close>

theorem snapshot_shares_records_counterexample:
  "read_list (history_list fresh_ledger)
     (snd (get_history fresh_ledger
        (add_record fresh_ledger (PyStr (lit ''IV'')) (PyInt 4) (PyStr (lit ''roman'')) fresh_heap))) =
   [\<lparr>rec_input = PyStr (lit ''IV''), rec_output = PyInt 4, rec_type = PyStr (lit ''roman'')\<rparr>] \<and>
   read_list (history_list fresh_ledger)
     (setitem_input
        (fst (get_history fresh_ledger
           (add_record fresh_ledger (PyStr (lit ''IV'')) (PyInt 4) (PyStr (lit ''roman'')) fresh_heap)))
        0 (PyStr (lit ''X''))
        (snd (get_history fresh_ledger
           (add_record fresh_ledger (PyStr (lit ''IV'')) (PyInt 4) (PyStr (lit ''roman'')) fresh_heap)))) =
   [\<lparr>rec_input = PyStr (lit ''X''), rec_output = PyInt 4, rec_type = PyStr (lit ''roman'')\<rparr>] \<and>
   PyStr (lit ''X'') \<noteq> PyStr (lit ''IV'')"
  by (simp add: fresh_ledger_eval add_record_def get_history_def setitem_input_def
      dict_store_def read_list_def Let_def) (simp add: lit_def)

section \<open>The conversion coordinator\<close>

lemma decimalToRoman_total: "\<exists>r. decimalToRoman n = Some r"
proof (cases "0 < n \<and> n < 4000")
  case True
  then show ?thesis by (simp add: decimalToRoman_canonical)
next
  case False
  then show ?thesis by (simp add: decimalToRoman_def)
qed

lemma get_converter_cases:
  "get_converter t =
     (if t = PyStr (lit ''roman'') then Some RomanToDecimalConverter
      else if t = PyStr (lit ''decimal'') then Some DecimalToRomanConverter
      else None)"
  by (simp add: get_converter_def converters_def)

lemma roman_neq_decimal: "PyStr (lit ''decimal'') \<noteq> PyStr (lit ''roman'')"
  by (simp add: lit_def)

text \<open>
  Claim C9, as the code has it. For \<open>conversion_type\<close> \<open>'roman'\<close> or \<open>'decimal'\<close> the
  factory selects the matching converter and \<open>convert\<close> runs it on the value. When
  the converter returns a result, exactly one record with the value, the result and
  that direction is appended and the result is returned; when the converter raises,
  the exception propagates and nothing is appended. The converter always returns or
  raises. For any other \<open>conversion_type\<close> the call raises a \<open>ValueError\<close> and the
  heap, hence the history, is unchanged.
\<close>

theorem convert_appends_on_success:
  assumes "valid_ledger (history self) h"
  shows
   "(\<forall>converter. get_converter conversion_type = Some converter \<longrightarrow>
       (\<forall>result. NumeralConverter_convert converter val = Some (Inr result) \<longrightarrow>
          (\<exists>h'. convert self val conversion_type h = Some (Inr result, h') \<and>
                read_list (history_list (history self)) h' =
                  read_list (history_list (history self)) h @
                    [\<lparr>rec_input = val, rec_output = result, rec_type = conversion_type\<rparr>])) \<and>
       (\<forall>e. NumeralConverter_convert converter val = Some (Inl e) \<longrightarrow>
          convert self val conversion_type h = Some (Inl e, h)) \<and>
       NumeralConverter_convert converter val \<noteq> None) \<and>
    (get_converter (PyStr (lit ''roman'')) = Some RomanToDecimalConverter) \<and>
    (get_converter (PyStr (lit ''decimal'')) = Some DecimalToRomanConverter) \<and>
    (conversion_type \<noteq> PyStr (lit ''roman'') \<and> conversion_type \<noteq> PyStr (lit ''decimal'') \<longrightarrow>
       (\<exists>msg. convert self val conversion_type h = Some (Inl (ValueError msg), h)))"
proof -
  have total: "NumeralConverter_convert converter val \<noteq> None" for converter
  proof (cases converter)
    case RomanToDecimalConverter
    then show ?thesis by (cases val) (auto split: sum.splits)
  next
    case DecimalToRomanConverter
    show ?thesis
    proof (cases val)
      case (PyInt n)
      obtain r where "decimalToRoman n = Some r" using decimalToRoman_total by blast
      then show ?thesis by (cases r) (simp_all add: DecimalToRomanConverter PyInt)
    qed (simp_all add: DecimalToRomanConverter)
  qed
  have ok: "\<exists>h'. convert self val conversion_type h = Some (Inr result, h') \<and>
                read_list (history_list (history self)) h' =
                  read_list (history_list (history self)) h @
                    [\<lparr>rec_input = val, rec_output = result, rec_type = conversion_type\<rparr>]"
    if c: "get_converter conversion_type = Some converter"
      and r: "NumeralConverter_convert converter val = Some (Inr result)" for converter result
  proof -
    from c have t: "conversion_type = PyStr (lit ''roman'') \<or> conversion_type = PyStr (lit ''decimal'')"
      by (auto simp: get_converter_cases split: if_splits)
    then show ?thesis
      using c r add_record_contents [OF assms] roman_neq_decimal
      by (auto simp: convert_def)
  qed
  have err: "convert self val conversion_type h = Some (Inl e, h)"
    if "get_converter conversion_type = Some converter"
      and "NumeralConverter_convert converter val = Some (Inl e)" for converter e
    using that by (simp add: convert_def)
  have unknown: "convert self val conversion_type h =
         Some (Inl (ValueError (lit ''Invalid conversion type: '' @ py_str conversion_type)), h)"
    if "conversion_type \<noteq> PyStr (lit ''roman'')" "conversion_type \<noteq> PyStr (lit ''decimal'')"
    using that by (simp add: convert_def get_converter_cases)
  have g1: "get_converter (PyStr (lit ''roman'')) = Some RomanToDecimalConverter"
    by (simp add: get_converter_cases)
  have g2: "get_converter (PyStr (lit ''decimal'')) = Some DecimalToRomanConverter"
    using roman_neq_decimal by (simp add: get_converter_cases)
  show ?thesis
    using ok err unknown total g1 g2 by blast
qed

lemma fresh_system_eval:
  "fresh_system = \<lparr>history = \<lparr>history_list = 0\<rparr>\<rparr>" "system_heap = \<lparr>lists = [[]], dicts = []\<rparr>"
  by (simp_all add: fresh_system_def system_heap_def ConversionSystem_init_def
      ConversionHistory_init_def empty_heap_def)

lemma convert_IV:
  "NumeralConverter_convert RomanToDecimalConverter (PyStr (lit ''IV'')) = Some (Inr (PyInt 4))"
  by (simp add: romanToDecimal_def lit_def roman_values_def)

theorem convert_appends_on_success_witness:
  "valid_ledger (history fresh_system) system_heap \<and>
   get_converter (PyStr (lit ''roman'')) = Some RomanToDecimalConverter \<and>
   NumeralConverter_convert RomanToDecimalConverter (PyStr (lit ''IV'')) = Some (Inr (PyInt 4)) \<and>
   (\<exists>h'. convert fresh_system (PyStr (lit ''IV'')) (PyStr (lit ''roman'')) system_heap =
            Some (Inr (PyInt 4), h') \<and>
         read_list (history_list (history fresh_system)) h' =
           [\<lparr>rec_input = PyStr (lit ''IV''), rec_output = PyInt 4,
             rec_type = PyStr (lit ''roman'')\<rparr>])"
proof -
  have v: "valid_ledger (history fresh_system) system_heap"
    by (simp add: fresh_system_eval valid_ledger_def)
  have e: "read_list (history_list (history fresh_system)) system_heap = []"
    by (simp add: fresh_system_eval read_list_def)
  from convert_appends_on_success [OF v, of "PyStr (lit ''roman'')" "PyStr (lit ''IV'')"]
    convert_IV v e
  show ?thesis by simp
qed

text \<open>
  Claim C9 as stated asks for exactly one appended record for every value. With the
  value \<open>'Z'\<close> and the direction \<open>'roman'\<close> the converter raises \<open>KeyError\<close>, which
  \<open>convert\<close> lets through: the heap is unchanged and the history stays empty.
\<close>

theorem convert_failure_appends_nothing_counterexample:
  "get_converter (PyStr (lit ''roman'')) = Some RomanToDecimalConverter \<and>
   convert fresh_system (PyStr (lit ''Z'')) (PyStr (lit ''roman'')) system_heap =
     Some (Inl (KeyError (lit ''Z'')), system_heap) \<and>
   read_list (history_list (history fresh_system)) system_heap = []"
  by (simp add: convert_def get_converter_cases romanToDecimal_def roman_values_def lit_def
      fresh_system_eval read_list_def)

section \<open>The human-readable format: round trip\<close>































section \<open>The tabular format: round trip\<close>































end
